theory Spec2Isabelle
  imports Complex_Main "HOL-Library.Char_ord" "HOL-Library.List_Lexorder" "HOL-Library.Log_Nat"
    "HOL-Library.Word"
begin

section \<open>Clinical trial analysis: data model\<close>

text \<open>
  The program (\<^verbatim>\<open>refactored_code.py\<close>) works on a pandas table as \<^verbatim>\<open>read_csv\<close> builds
  it. A table is modelled by its columns: a partial map from the column name to the
  column's values, one value per row. A value is a whole number (a value of an
  \<^verbatim>\<open>int64\<close> column: a signed 64-bit integer), a floating-point number (a value of a
  \<^verbatim>\<open>float64\<close> column), a string, or the missing value (NaN, what an empty CSV field
  becomes).

  A \<^verbatim>\<open>float64\<close> value is a rational with a mantissa of at most 53 bits. The exponent
  range is not modelled: there is no overflow to infinity and no loss of precision
  near zero.
\<close>

definition is_float64 :: "rat \<Rightarrow> bool" where
  "is_float64 x =
     (\<exists>m::int. \<exists>e::nat. \<bar>m\<bar> \<le> 2 ^ 53 \<and> (x = of_int m * 2 ^ e \<or> x = of_int m / 2 ^ e))"

typedef float64 = "{x. is_float64 x}"
  morphisms float64_value Abs_float64
proof
  have "\<bar>0::int\<bar> \<le> 2 ^ 53 \<and> ((0::rat) = of_int 0 * 2 ^ 0 \<or> (0::rat) = of_int 0 / 2 ^ 0)"
    by simp
  then show "(0::rat) \<in> {x. is_float64 x}"
    unfolding is_float64_def by blast
qed

datatype cell = I64 "64 word" | F64 float64 | Str string | Null

type_synonym series = "cell list"

type_synonym dataframe = "string \<rightharpoonup> series"

text \<open>
  The numbers the program computes and prints: a Python \<^verbatim>\<open>int\<close>, a \<^verbatim>\<open>float\<close>, or NaN.
\<close>

datatype scalar = PyInt int | PyFloat rat | NaN

text \<open>
  The exceptions that can leave the program, each with its message where it has one.
  The specification calls \<open>FileNotFoundError\<close> a FileAccessError, \<open>KeyError\<close> a
  MissingColumnError and \<open>ParserError\<close> a ParseError.
\<close>

datatype error = FileNotFoundError | ParserError | KeyError string | TypeError

definition AGE_THRESHOLD :: int where
  "AGE_THRESHOLD = 50"

definition TARGET_CANCER_TYPE :: string where
  "TARGET_CANCER_TYPE = ''Lung''"

definition TREATMENT_GROUP :: string where
  "TREATMENT_GROUP = ''Treatment_A''"

definition CONTROL_GROUP :: string where
  "CONTROL_GROUP = ''Control''"

section \<open>Floating-point arithmetic\<close>

text \<open>
  The conversion of a whole number to \<^verbatim>\<open>float64\<close>: the 53 leading bits are kept and
  the rest is rounded to nearest, ties to the even mantissa. Whole numbers up to
  \<open>2 ^ 53\<close> in magnitude are unchanged.
\<close>

definition to_float64 :: "int \<Rightarrow> rat" where
  "to_float64 i =
     (let k = nat (bitlen \<bar>i\<bar> - 53);
          q = \<bar>i\<bar> div 2 ^ k;
          r = \<bar>i\<bar> mod 2 ^ k;
          m = (if 2 ^ k < 2 * r \<or> (2 * r = 2 ^ k \<and> odd q) then q + 1 else q)
      in of_int (sgn i * m * 2 ^ k))"

definition float64_of_int :: "int \<Rightarrow> float64" where
  "float64_of_int i = Abs_float64 (to_float64 i)"

text \<open>
  The result of one \<^verbatim>\<open>float64\<close> operation is the exact result rounded to a 53-bit
  mantissa, to nearest, ties to even.
\<close>

definition pow2 :: "int \<Rightarrow> rat" where
  "pow2 e = (if 0 \<le> e then 2 ^ nat e else 1 / 2 ^ nat (- e))"

definition floor_log2 :: "rat \<Rightarrow> int" where
  "floor_log2 a =
     (let (p, q) = quotient_of a; k = bitlen p - bitlen q
      in if pow2 k \<le> a then k else k - 1)"

definition round_half_even :: "rat \<Rightarrow> int" where
  "round_half_even s =
     (let f = \<lfloor>s\<rfloor>
      in if s - of_int f < 1 / 2 then f
         else if 1 / 2 < s - of_int f then f + 1
         else if even f then f else f + 1)"

definition round64 :: "rat \<Rightarrow> rat" where
  "round64 x =
     (if x = 0 then 0
      else let e = floor_log2 \<bar>x\<bar> - 52
           in sgn x * of_int (round_half_even (\<bar>x\<bar> / pow2 e)) * pow2 e)"

section \<open>The table operations the program uses\<close>

text \<open>\<^verbatim>\<open>data[name]\<close>: the column, or KeyError when the table has no such column.\<close>

definition getitem :: "dataframe \<Rightarrow> string \<Rightarrow> error + series" where
  "getitem data name = (case data name of None \<Rightarrow> Inl (KeyError name) | Some s \<Rightarrow> Inr s)"

text \<open>An elementwise operation fails as a whole as soon as one element fails.\<close>

fun collect :: "(error + 'a) list \<Rightarrow> error + 'a list" where
  "collect [] = Inr []"
| "collect (r # rs) =
     (case r of
        Inl e \<Rightarrow> Inl e
      | Inr x \<Rightarrow> (case collect rs of Inl e \<Rightarrow> Inl e | Inr xs \<Rightarrow> Inr (x # xs)))"

text \<open>
  \<^verbatim>\<open>value >= threshold\<close> on one element, the threshold a Python \<^verbatim>\<open>int\<close>: a whole
  number is compared as it is, a floating-point number with the threshold converted
  to \<^verbatim>\<open>float64\<close>, a missing value compares false, a string against a number is a
  TypeError.
\<close>

fun cell_ge :: "cell \<Rightarrow> int \<Rightarrow> error + bool" where
  "cell_ge (I64 i) t = Inr (t \<le> sint i)"
| "cell_ge (F64 x) t = Inr (to_float64 t \<le> float64_value x)"
| "cell_ge Null t = Inr False"
| "cell_ge (Str s) t = Inl TypeError"

definition series_ge :: "series \<Rightarrow> int \<Rightarrow> error + bool list" where
  "series_ge s t = collect (map (\<lambda>c. cell_ge c t) s)"

text \<open>\<^verbatim>\<open>value == text\<close>: never fails; a number or a missing value is not equal to a string.\<close>

fun cell_eq :: "cell \<Rightarrow> string \<Rightarrow> bool" where
  "cell_eq (Str s) t = (s = t)"
| "cell_eq (I64 i) t = False"
| "cell_eq (F64 x) t = False"
| "cell_eq Null t = False"

definition series_eq :: "series \<Rightarrow> string \<Rightarrow> bool list" where
  "series_eq s t = map (\<lambda>c. cell_eq c t) s"

text \<open>
  \<^verbatim>\<open>left < right\<close> on one pair of elements. Two whole numbers are compared as they
  are, two floating-point numbers too; a whole number against a floating-point number
  is first converted to \<^verbatim>\<open>float64\<close>, as numpy does with an \<^verbatim>\<open>int64\<close> column compared
  with a \<^verbatim>\<open>float64\<close> column. Strings compare lexicographically, a missing value on
  either side compares false, a number against a string is a TypeError.
\<close>

fun cell_lt :: "cell \<Rightarrow> cell \<Rightarrow> error + bool" where
  "cell_lt Null c = Inr False"
| "cell_lt c Null = Inr False"
| "cell_lt (I64 i) (I64 j) = Inr (sint i < sint j)"
| "cell_lt (I64 i) (F64 y) = Inr (to_float64 (sint i) < float64_value y)"
| "cell_lt (F64 x) (I64 j) = Inr (float64_value x < to_float64 (sint j))"
| "cell_lt (F64 x) (F64 y) = Inr (float64_value x < float64_value y)"
| "cell_lt (Str s) (Str t) = Inr (s < t)"
| "cell_lt (Str s) c = Inl TypeError"
| "cell_lt c (Str t) = Inl TypeError"

definition compares_less :: "cell \<Rightarrow> cell \<Rightarrow> bool" where
  "compares_less a b = (cell_lt a b = Inr True)"

definition series_lt :: "series \<Rightarrow> series \<Rightarrow> error + bool list" where
  "series_lt l r = collect (map (\<lambda>(a, b). cell_lt a b) (zip l r))"

text \<open>\<^verbatim>\<open>m1 & m2\<close> on two boolean columns.\<close>

definition series_and :: "bool list \<Rightarrow> bool list \<Rightarrow> bool list" where
  "series_and m1 m2 = map (\<lambda>(a, b). a \<and> b) (zip m1 m2)"

text \<open>\<^verbatim>\<open>data[mask]\<close>: the rows whose mask entry is true, in every column, in row order.\<close>

definition select :: "bool list \<Rightarrow> 'a list \<Rightarrow> 'a list" where
  "select keep xs = map snd (filter fst (zip keep xs))"

definition filter_rows :: "dataframe \<Rightarrow> bool list \<Rightarrow> dataframe" where
  "filter_rows data keep = (\<lambda>name. map_option (select keep) (data name))"

text \<open>
  \<^verbatim>\<open>data.groupby(key)[col]\<close>: one group per distinct key value, rows with a missing
  key dropped (pandas' default \<^verbatim>\<open>dropna=True\<close>). Each group holds the \<open>col\<close> values of
  its rows in row order. pandas orders the groups by key; the program only looks groups
  up by key, so the order of the groups is left as the order of \<open>remdups\<close>.
\<close>

definition group_rows :: "series \<Rightarrow> series \<Rightarrow> (cell \<times> series) list" where
  "group_rows keys vals =
     map (\<lambda>k. (k, map snd (filter (\<lambda>p. fst p = k) (zip keys vals))))
         (remdups (filter (\<lambda>k. k \<noteq> Null) keys))"

definition groupby :: "dataframe \<Rightarrow> string \<Rightarrow> string \<Rightarrow> error + (cell \<times> series) list" where
  "groupby data key col =
     (case data key of
        None \<Rightarrow> Inl (KeyError key)
      | Some keys \<Rightarrow>
          (case data col of
             None \<Rightarrow> Inl (KeyError (''Column not found: '' @ col))
           | Some vals \<Rightarrow> Inr (group_rows keys vals)))"

text \<open>
  \<^verbatim>\<open>.mean()\<close> of one group. The values are converted to \<^verbatim>\<open>float64\<close> and missing values
  are skipped. pandas adds the values up in row order with a compensated
  (Kahan) sum, every operation rounded to \<^verbatim>\<open>float64\<close>, and divides the sum by the
  number of values. A group with no value left has mean NaN, a string in the group is
  a TypeError.
\<close>

fun is_text :: "cell \<Rightarrow> bool" where
  "is_text (Str s) = True"
| "is_text (I64 i) = False"
| "is_text (F64 x) = False"
| "is_text Null = False"

fun float_values :: "series \<Rightarrow> rat list" where
  "float_values [] = []"
| "float_values (I64 i # cs) = to_float64 (sint i) # float_values cs"
| "float_values (F64 x # cs) = float64_value x # float_values cs"
| "float_values (c # cs) = float_values cs"

fun kahan_sum :: "rat \<Rightarrow> rat \<Rightarrow> rat list \<Rightarrow> rat" where
  "kahan_sum sumx compensation [] = sumx"
| "kahan_sum sumx compensation (val # vals) =
     (let y = round64 (val - compensation);
          t = round64 (sumx + y);
          c = round64 (round64 (t - sumx) - y)
      in kahan_sum t c vals)"

definition float64_mean :: "rat list \<Rightarrow> rat" where
  "float64_mean vals = round64 (kahan_sum 0 0 vals / to_float64 (int (length vals)))"

definition series_mean :: "series \<Rightarrow> error + scalar" where
  "series_mean s =
     (if \<exists>c \<in> set s. is_text c then Inl TypeError
      else if float_values s = [] then Inr NaN
      else Inr (PyFloat (float64_mean (float_values s))))"

definition group_mean :: "cell \<times> series \<Rightarrow> error + cell \<times> scalar" where
  "group_mean g = (case series_mean (snd g) of Inl e \<Rightarrow> Inl e | Inr m \<Rightarrow> Inr (fst g, m))"

definition groups_mean :: "(cell \<times> series) list \<Rightarrow> error + (cell \<times> scalar) list" where
  "groups_mean gs = collect (map group_mean gs)"

text \<open>\<^verbatim>\<open>grouped.get(key, default)\<close>.\<close>

definition series_get :: "(cell \<times> scalar) list \<Rightarrow> cell \<Rightarrow> scalar \<Rightarrow> scalar" where
  "series_get grouped key dflt = (case map_of grouped key of None \<Rightarrow> dflt | Some v \<Rightarrow> v)"

section \<open>The program\<close>

text \<open>
  \<^verbatim>\<open>load_clinical_data\<close> is \<^verbatim>\<open>pd.read_csv(file_path)\<close>. The file system maps a path to
  the content of the file there, and the CSV reader of pandas is a parameter: it turns
  the content into a table or fails.
\<close>

type_synonym filesystem = "string \<rightharpoonup> string"

type_synonym csv_reader = "string \<Rightarrow> error + dataframe"

definition load_clinical_data :: "filesystem \<Rightarrow> csv_reader \<Rightarrow> string \<Rightarrow> error + dataframe" where
  "load_clinical_data fs read_csv file_path =
     (case fs file_path of None \<Rightarrow> Inl FileNotFoundError | Some content \<Rightarrow> read_csv content)"

text \<open>
  The boolean mask of \<^verbatim>\<open>get_responsive_patients\<close>, in Python's order of evaluation:
  the age comparison, the cancer type comparison, their conjunction, the two tumor size
  columns, their comparison, the final conjunction.
\<close>

definition responder_mask :: "dataframe \<Rightarrow> error + bool list" where
  "responder_mask data =
     (case getitem data ''age'' of Inl e \<Rightarrow> Inl e | Inr age \<Rightarrow>
     (case series_ge age AGE_THRESHOLD of Inl e \<Rightarrow> Inl e | Inr m1 \<Rightarrow>
     (case getitem data ''cancer_type'' of Inl e \<Rightarrow> Inl e | Inr cancer \<Rightarrow>
     (let m12 = series_and m1 (series_eq cancer TARGET_CANCER_TYPE) in
     (case getitem data ''final_tumor_size'' of Inl e \<Rightarrow> Inl e | Inr final \<Rightarrow>
     (case getitem data ''baseline_tumor_size'' of Inl e \<Rightarrow> Inl e | Inr baseline \<Rightarrow>
     (case series_lt final baseline of Inl e \<Rightarrow> Inl e | Inr m3 \<Rightarrow>
      Inr (series_and m12 m3))))))))"

definition get_responsive_patients :: "dataframe \<Rightarrow> error + cell list" where
  "get_responsive_patients data =
     (case responder_mask data of Inl e \<Rightarrow> Inl e | Inr keep \<Rightarrow>
     (let filtered = filter_rows data keep in
      getitem filtered ''patient_id''))"

record survival_stats =
  avg_survival_treatment_group :: scalar
  avg_survival_control :: scalar

definition compute_survival_statistics :: "dataframe \<Rightarrow> error + survival_stats" where
  "compute_survival_statistics data =
     (case groupby data ''treatment'' ''survival_months'' of Inl e \<Rightarrow> Inl e | Inr groups \<Rightarrow>
     (case groups_mean groups of Inl e \<Rightarrow> Inl e | Inr grouped \<Rightarrow>
      Inr \<lparr> avg_survival_treatment_group = series_get grouped (Str TREATMENT_GROUP) (PyInt 0),
            avg_survival_control = series_get grouped (Str CONTROL_GROUP) (PyInt 0) \<rparr>))"

text \<open>
  \<^verbatim>\<open>analyze_clinical_trial\<close> returns what it printed, line by line, and its result or
  the exception that ended it. A printed line is its label and the value printed after
  it.
\<close>

type_synonym out_line = "string \<times> scalar"

definition analyze_clinical_trial ::
  "filesystem \<Rightarrow> csv_reader \<Rightarrow> string \<Rightarrow> out_line list \<times> (error + cell list)" where
  "analyze_clinical_trial fs read_csv file_path =
     (case load_clinical_data fs read_csv file_path of Inl e \<Rightarrow> ([], Inl e) | Inr data \<Rightarrow>
     (case get_responsive_patients data of Inl e \<Rightarrow> ([], Inl e) | Inr responsive_patients \<Rightarrow>
     (case compute_survival_statistics data of Inl e \<Rightarrow> ([], Inl e) | Inr survival_stats \<Rightarrow>
      ([(''Avg survival (Treatment A):'', avg_survival_treatment_group survival_stats),
        (''Avg survival (Control):'', avg_survival_control survival_stats),
        (''Responsive patients:'', PyInt (int (length responsive_patients)))],
       Inr responsive_patients))))"

section \<open>The specification's view of a dataset\<close>

text \<open>The seven columns the data model names.\<close>

definition named_columns :: "string set" where
  "named_columns =
     {''patient_id'', ''age'', ''cancer_type'', ''baseline_tumor_size'', ''final_tumor_size'',
      ''treatment'', ''survival_months''}"

text \<open>
  A dataset with \<open>n\<close> rows: each named column the table has holds \<open>n\<close> values. Row
  \<open>i\<close> is the value of every column at position \<open>i\<close>.
\<close>

definition has_rows :: "dataframe \<Rightarrow> nat \<Rightarrow> bool" where
  "has_rows data n =
     (\<forall>name \<in> named_columns. case data name of None \<Rightarrow> True | Some s \<Rightarrow> length s = n)"

definition row :: "dataframe \<Rightarrow> nat \<Rightarrow> (string \<rightharpoonup> cell)" where
  "row data i = (\<lambda>name. map_option (\<lambda>s. s ! i) (data name))"

text \<open>
  The data model gives \<open>age\<close>, the two tumor sizes and \<open>survival_months\<close> numeric
  values: such a column, when the table has it, holds numbers and missing values only.
\<close>

definition numeric_column :: "dataframe \<Rightarrow> string \<Rightarrow> bool" where
  "numeric_column data name =
     (case data name of None \<Rightarrow> True | Some s \<Rightarrow> \<forall>c \<in> set s. \<not> is_text c)"

text \<open>The number a cell holds, if it holds one.\<close>

fun value_of :: "cell \<Rightarrow> rat option" where
  "value_of (I64 i) = Some (of_int (sint i))"
| "value_of (F64 x) = Some (float64_value x)"
| "value_of (Str s) = None"
| "value_of Null = None"

text \<open>
  The three predicates of the Responder Filter on one row, as the specification words
  them: comparisons of the numbers in the row, true only where the numbers are there.
\<close>

definition age_at_least_threshold :: "(string \<rightharpoonup> cell) \<Rightarrow> bool" where
  "age_at_least_threshold r =
     (case r ''age'' of
        None \<Rightarrow> False
      | Some c \<Rightarrow> (case value_of c of None \<Rightarrow> False | Some a \<Rightarrow> 50 \<le> a))"

definition is_lung :: "(string \<rightharpoonup> cell) \<Rightarrow> bool" where
  "is_lung r = (r ''cancer_type'' = Some (Str ''Lung''))"

definition less_value :: "cell \<Rightarrow> cell \<Rightarrow> bool" where
  "less_value a b =
     (case value_of a of
        None \<Rightarrow> False
      | Some x \<Rightarrow> (case value_of b of None \<Rightarrow> False | Some y \<Rightarrow> x < y))"

definition tumor_shrunk :: "(string \<rightharpoonup> cell) \<Rightarrow> bool" where
  "tumor_shrunk r =
     (case r ''final_tumor_size'' of
        None \<Rightarrow> False
      | Some f \<Rightarrow>
          (case r ''baseline_tumor_size'' of None \<Rightarrow> False | Some b \<Rightarrow> less_value f b))"

definition responsive :: "(string \<rightharpoonup> cell) \<Rightarrow> bool" where
  "responsive r = (age_at_least_threshold r \<and> is_lung r \<and> tumor_shrunk r)"

text \<open>
  Two tumor sizes are exactly comparable when the program compares them without
  rounding: always, except that a whole number compared with a floating-point number
  must be exactly representable in \<^verbatim>\<open>float64\<close> (every whole number up to \<open>2 ^ 53\<close> in
  magnitude is).
\<close>

fun exactly_comparable :: "cell \<Rightarrow> cell \<Rightarrow> bool" where
  "exactly_comparable (I64 i) (F64 y) = (to_float64 (sint i) = of_int (sint i))"
| "exactly_comparable (F64 x) (I64 j) = (to_float64 (sint j) = of_int (sint j))"
| "exactly_comparable a b = True"

text \<open>
  The group mean as the specification words it: the rows of the group are those whose
  treatment is the label; a label with no row has mean 0; otherwise the mean is taken
  over the known survival values of the rows of the group (NaN when none of them is
  known), in \<^verbatim>\<open>float64\<close> arithmetic.
\<close>

definition group_of :: "series \<Rightarrow> string \<Rightarrow> nat list" where
  "group_of treatment label = filter (\<lambda>i. treatment ! i = Str label) [0..<length treatment]"

definition group_values :: "series \<Rightarrow> series \<Rightarrow> string \<Rightarrow> series" where
  "group_values treatment survival label = map ((!) survival) (group_of treatment label)"

definition known_mean :: "series \<Rightarrow> scalar" where
  "known_mean s =
     (if float_values s = [] then NaN else PyFloat (float64_mean (float_values s)))"

definition spec_group_mean :: "series \<Rightarrow> series \<Rightarrow> string \<Rightarrow> scalar" where
  "spec_group_mean treatment survival label =
     (if group_of treatment label = [] then PyInt 0
      else known_mean (group_values treatment survival label))"

text \<open>
  A number of ordinary magnitude is zero or between \<open>2 ^ 900\<close> and its inverse in
  magnitude: far inside the range of \<^verbatim>\<open>float64\<close>, so that adding such numbers up and
  dividing the sum neither overflows nor loses precision near zero.
\<close>

definition ordinary_magnitude :: "cell \<Rightarrow> bool" where
  "ordinary_magnitude c =
     (case value_of c of
        None \<Rightarrow> True
      | Some v \<Rightarrow> v = 0 \<or> (1 / 2 ^ 900 \<le> \<bar>v\<bar> \<and> \<bar>v\<bar> \<le> 2 ^ 900))"

text \<open>
  The values of a column are the whole numbers \<open>ns\<close>: every cell holds the number at
  its position.
\<close>

definition whole_values :: "series \<Rightarrow> int list \<Rightarrow> bool" where
  "whole_values s ns = (map value_of s = map (\<lambda>n. Some (of_int n)) ns)"

text \<open>The columns the Responder Filter reads.\<close>

definition filter_columns :: "string set" where
  "filter_columns =
     {''age'', ''cancer_type'', ''final_tumor_size'', ''baseline_tumor_size'', ''patient_id''}"

text \<open>The table without its row \<open>i\<close>.\<close>

definition drop_row :: "nat \<Rightarrow> dataframe \<Rightarrow> dataframe" where
  "drop_row i data = (\<lambda>name. map_option (\<lambda>s. take i s @ drop (Suc i) s) (data name))"

section \<open>Example data\<close>

text \<open>The three-row dataset of the end-to-end scenario.\<close>

definition scenario :: dataframe where
  "scenario =
     [''patient_id'' \<mapsto> [Str ''P1'', Str ''P2'', Str ''P3''],
      ''age'' \<mapsto> [I64 60, I64 40, I64 70],
      ''cancer_type'' \<mapsto> [Str ''Lung'', Str ''Lung'', Str ''Lung''],
      ''baseline_tumor_size'' \<mapsto> [I64 10, I64 10, I64 8],
      ''final_tumor_size'' \<mapsto> [I64 5, I64 5, I64 9],
      ''treatment'' \<mapsto> [Str ''Treatment_A'', Str ''Control'', Str ''Treatment_A''],
      ''survival_months'' \<mapsto> [I64 20, I64 10, I64 30]]"

text \<open>
  A four-row dataset with a repeated patient, a missing age, a missing treatment, a
  treatment label outside the two groups, a missing survival time and an extra column.
  A column with a missing value is a \<^verbatim>\<open>float64\<close> column, and so is the baseline
  column here.
\<close>

definition trial_sample :: dataframe where
  "trial_sample =
     [''patient_id'' \<mapsto> [Str ''P1'', Str ''P1'', Str ''P2'', Str ''P3''],
      ''age'' \<mapsto> [F64 (float64_of_int 60), F64 (float64_of_int 55), Null, F64 (float64_of_int 70)],
      ''cancer_type'' \<mapsto> [Str ''Lung'', Str ''Lung'', Str ''Lung'', Str ''Breast''],
      ''baseline_tumor_size'' \<mapsto>
        [F64 (float64_of_int 10), F64 (float64_of_int 12), F64 (float64_of_int 10),
         F64 (float64_of_int 8)],
      ''final_tumor_size'' \<mapsto> [I64 5, I64 6, I64 5, I64 4],
      ''treatment'' \<mapsto> [Str ''Treatment_A'', Null, Str ''Treatment_A'', Str ''Other''],
      ''survival_months'' \<mapsto>
        [F64 (float64_of_int 20), F64 (float64_of_int 99), F64 (float64_of_int 11), Null],
      ''site'' \<mapsto> [Str ''Kyiv'', Str ''Lviv'', Str ''Kyiv'', Str ''Odesa'']]"

text \<open>The same dataset with other values in its extra column and one more extra column.\<close>

definition trial_sample_wide :: dataframe where
  "trial_sample_wide =
     trial_sample(''site'' \<mapsto> [I64 1, I64 2, I64 3, I64 4],
                  ''visits'' \<mapsto> [I64 3, I64 3, I64 4, I64 1])"

text \<open>A dataset in which no row passes the filter: one patient too young, one whose tumor grew.\<close>

definition no_responders :: dataframe where
  "no_responders =
     [''patient_id'' \<mapsto> [Str ''Q1'', Str ''Q2''],
      ''age'' \<mapsto> [I64 49, I64 50],
      ''cancer_type'' \<mapsto> [Str ''Lung'', Str ''Lung''],
      ''baseline_tumor_size'' \<mapsto> [I64 7, I64 7],
      ''final_tumor_size'' \<mapsto> [I64 3, I64 7]]"

text \<open>
  A one-row dataset whose final tumor size, a floating-point \<open>2 ^ 53\<close>, is below its
  baseline, the whole number \<open>2 ^ 53 + 1\<close>, which \<^verbatim>\<open>float64\<close> cannot hold.
\<close>

definition large_sizes :: dataframe where
  "large_sizes =
     [''patient_id'' \<mapsto> [Str ''A''],
      ''age'' \<mapsto> [I64 60],
      ''cancer_type'' \<mapsto> [Str ''Lung''],
      ''baseline_tumor_size'' \<mapsto> [I64 9007199254740993],
      ''final_tumor_size'' \<mapsto> [F64 (float64_of_int 9007199254740992)]]"

text \<open>Three treated patients who survived 1, 1 and 2 months: the mean is not a \<^verbatim>\<open>float64\<close>.\<close>

definition thirds :: dataframe where
  "thirds =
     [''treatment'' \<mapsto> [Str ''Treatment_A'', Str ''Treatment_A'', Str ''Treatment_A''],
      ''survival_months'' \<mapsto> [I64 1, I64 1, I64 2]]"

text \<open>
  A file system with two CSV files, and a reader that knows them: the file of the
  scenario, and a file whose header has no \<open>age\<close> column. Any other content is
  rejected as malformed.
\<close>

definition scenario_csv :: string where
  "scenario_csv =
     ''patient_id,age,cancer_type,baseline_tumor_size,final_tumor_size,treatment,survival_months\<newline>'' @
     ''P1,60,Lung,10,5,Treatment_A,20\<newline>'' @
     ''P2,40,Lung,10,5,Control,10\<newline>'' @
     ''P3,70,Lung,8,9,Treatment_A,30\<newline>''"

definition no_age_csv :: string where
  "no_age_csv = ''patient_id,cancer_type\<newline>P1,Lung\<newline>''"

definition no_age_table :: dataframe where
  "no_age_table = [''patient_id'' \<mapsto> [Str ''P1''], ''cancer_type'' \<mapsto> [Str ''Lung'']]"

definition sample_files :: filesystem where
  "sample_files =
     [''clinical_trial_patients.csv'' \<mapsto> scenario_csv, ''no_age.csv'' \<mapsto> no_age_csv]"

definition sample_reader :: csv_reader where
  "sample_reader content =
     (if content = scenario_csv then Inr scenario
      else if content = no_age_csv then Inr no_age_table
      else Inl ParserError)"

section \<open>Properties of the floating-point arithmetic\<close>

declare of_int_sint [simp del]

lemma to_float64_shape:
  fixes i :: int
  defines "k \<equiv> nat (bitlen \<bar>i\<bar> - 53)"
  defines "q \<equiv> \<bar>i\<bar> div 2 ^ k"
  shows "q * 2 ^ k \<le> \<bar>i\<bar>" "\<bar>i\<bar> < (q + 1) * 2 ^ k" "0 \<le> q" "q < 2 ^ 53"
    "0 < k \<Longrightarrow> 2 ^ 52 \<le> q"
    "to_float64 i = of_int (sgn i * q * 2 ^ k) \<or> to_float64 i = of_int (sgn i * (q + 1) * 2 ^ k)"
    "\<bar>i\<bar> = q * 2 ^ k \<Longrightarrow> to_float64 i = of_int i"
proof -
  have p: "(0::int) < 2 ^ k" by simp
  have dm: "\<bar>i\<bar> = q * 2 ^ k + \<bar>i\<bar> mod 2 ^ k"
    unfolding q_def by (rule div_mult_mod_eq [symmetric])
  have r: "0 \<le> \<bar>i\<bar> mod 2 ^ k" "\<bar>i\<bar> mod 2 ^ k < 2 ^ k"
    using p by simp_all
  show lo: "q * 2 ^ k \<le> \<bar>i\<bar>" using dm r by linarith
  have "(q + 1) * 2 ^ k = q * 2 ^ k + (2 ^ k :: int)" by (simp add: algebra_simps)
  then show hi: "\<bar>i\<bar> < (q + 1) * 2 ^ k" using dm r by linarith
  show q0: "0 \<le> q" unfolding q_def by (simp add: pos_imp_zdiv_nonneg_iff)
  have bound: "\<bar>i\<bar> < 2 ^ 53 * 2 ^ k"
  proof (cases "i = 0")
    case True then show ?thesis by simp
  next
    case False
    then have pos: "0 < \<bar>i\<bar>" by simp
    have "nat (bitlen \<bar>i\<bar>) \<le> 53 + k" unfolding k_def by simp
    then have "(2::int) ^ nat (bitlen \<bar>i\<bar>) \<le> 2 ^ (53 + k)"
      by (intro power_increasing) simp_all
    with bitlen_bounds [OF pos] show ?thesis by (simp add: power_add)
  qed
  show "q < 2 ^ 53"
  proof (rule ccontr)
    assume "\<not> q < 2 ^ 53"
    then have "2 ^ 53 \<le> q" by simp
    then have "2 ^ 53 * 2 ^ k \<le> q * (2 ^ k :: int)" by (intro mult_right_mono) simp_all
    with lo bound show False by linarith
  qed
  show "2 ^ 52 \<le> q" if "0 < k"
  proof -
    from that have b: "bitlen \<bar>i\<bar> = 53 + int k" unfolding k_def by simp
    then have pos: "0 < \<bar>i\<bar>" using bitlen_eq_zero_iff [of "\<bar>i\<bar>"] by (cases "i = 0") auto
    have "nat (bitlen \<bar>i\<bar> - 1) = 52 + k" using b by simp
    with bitlen_bounds [OF pos] have "2 ^ 52 * 2 ^ k \<le> \<bar>i\<bar>" by (simp add: power_add)
    with hi have "2 ^ 52 * 2 ^ k < (q + 1) * (2 ^ k :: int)" by linarith
    then have "2 ^ 52 < q + 1" using p by (simp add: mult_less_cancel_right)
    then show ?thesis by simp
  qed
  show "to_float64 i = of_int (sgn i * q * 2 ^ k) \<or> to_float64 i = of_int (sgn i * (q + 1) * 2 ^ k)"
    by (simp add: to_float64_def Let_def k_def q_def)
  show "to_float64 i = of_int i" if "\<bar>i\<bar> = q * 2 ^ k"
  proof -
    from that dm have "\<bar>i\<bar> mod 2 ^ k = 0" by linarith
    then have "to_float64 i = of_int (sgn i * q * 2 ^ k)"
      using p by (simp add: to_float64_def Let_def k_def [symmetric] q_def [symmetric])
    also have "sgn i * q * 2 ^ k = sgn i * \<bar>i\<bar>" using that by simp
    also have "\<dots> = i" by (simp add: mult_sgn_abs)
    finally show ?thesis .
  qed
qed

lemma to_float64_exact: "\<bar>i\<bar> \<le> 2 ^ 53 \<Longrightarrow> to_float64 i = of_int i"
proof -
  assume a: "\<bar>i\<bar> \<le> 2 ^ 53"
  show ?thesis
  proof (cases "\<bar>i\<bar> = 2 ^ 53")
    case True
    moreover have "bitlen 1 = 1" by (simp add: bitlen_alt_def)
    ultimately have "bitlen \<bar>i\<bar> = 54" using bitlen_pow2 [of 1 53] by simp
    then have "\<bar>i\<bar> = (\<bar>i\<bar> div 2 ^ nat (bitlen \<bar>i\<bar> - 53)) * 2 ^ nat (bitlen \<bar>i\<bar> - 53)"
      using True by simp
    then show ?thesis by (rule to_float64_shape(7))
  next
    case False
    with a have lt: "\<bar>i\<bar> < 2 ^ 53" by simp
    have "bitlen \<bar>i\<bar> \<le> 53"
      using lt by (simp add: bitlen_le_iff_power)
    then have "nat (bitlen \<bar>i\<bar> - 53) = 0" by simp
    then have "\<bar>i\<bar> = (\<bar>i\<bar> div 2 ^ nat (bitlen \<bar>i\<bar> - 53)) * 2 ^ nat (bitlen \<bar>i\<bar> - 53)"
      by simp
    then show ?thesis by (rule to_float64_shape(7))
  qed
qed

lemma is_float64_to_float64: "is_float64 (to_float64 i)"
proof -
  let ?k = "nat (bitlen \<bar>i\<bar> - 53)"
  let ?q = "\<bar>i\<bar> div 2 ^ ?k"
  note s = to_float64_shape [of i]
  from s(6) show ?thesis
  proof
    assume "to_float64 i = of_int (sgn i * ?q * 2 ^ ?k)"
    moreover have "\<bar>sgn i * ?q\<bar> \<le> 2 ^ 53"
      using s(3,4) by (simp add: abs_mult abs_sgn_eq)
    ultimately show ?thesis
      unfolding is_float64_def by (intro exI [of _ "sgn i * ?q"] exI [of _ ?k]) simp
  next
    assume "to_float64 i = of_int (sgn i * (?q + 1) * 2 ^ ?k)"
    moreover have "\<bar>sgn i * (?q + 1)\<bar> \<le> 2 ^ 53"
      using s(3,4) by (simp add: abs_mult abs_sgn_eq)
    ultimately show ?thesis
      unfolding is_float64_def by (intro exI [of _ "sgn i * (?q + 1)"] exI [of _ ?k]) simp
  qed
qed

lemma float64_value_of_int: "float64_value (float64_of_int i) = to_float64 i"
  unfolding float64_of_int_def using is_float64_to_float64 by (simp add: Abs_float64_inverse)

lemma is_float64_value: "is_float64 (float64_value x)"
  using float64_value [of x] by simp

lemma no_float64_between:
  assumes f: "is_float64 f" and q: "2 ^ 52 \<le> q" and k: "0 < k"
    and lo: "of_int (q * 2 ^ k) < f" and hi: "f < of_int ((q + 1) * 2 ^ k)"
  shows False
proof -
  from f obtain m :: int and e :: nat where m: "\<bar>m\<bar> \<le> 2 ^ 53"
    and fe: "f = of_int m * 2 ^ e \<or> f = of_int m / 2 ^ e"
    unfolding is_float64_def by blast
  have big: "(2::int) ^ 53 \<le> q * 2 ^ k"
  proof -
    have "(2::int) ^ 53 = 2 ^ 52 * 2 ^ 1" by simp
    also have "\<dots> \<le> 2 ^ 52 * 2 ^ k"
      using k by (intro mult_left_mono power_increasing) simp_all
    also have "\<dots> \<le> q * 2 ^ k" using q by (intro mult_right_mono) simp_all
    finally show ?thesis .
  qed
  from fe show False
  proof
    assume fm: "f = of_int m / 2 ^ e"
    have "of_int m / 2 ^ e \<le> (of_int \<bar>m\<bar> :: rat)"
    proof -
      have "of_int m / 2 ^ e \<le> (of_int \<bar>m\<bar> / 2 ^ e :: rat)"
        by (intro divide_right_mono) simp_all
      also have "\<dots> \<le> of_int \<bar>m\<bar> / 1"
        by (intro divide_left_mono) simp_all
      finally show ?thesis by simp
    qed
    also have "\<dots> \<le> of_int (q * 2 ^ k)"
      using m big by (subst of_int_le_iff) linarith
    finally show False using lo fm by simp
  next
    assume fm: "f = of_int m * 2 ^ e"
    show False
    proof (cases "k \<le> e")
      case True
      then have "m * 2 ^ e = (m * 2 ^ (e - k)) * 2 ^ k"
        by (simp add: power_add [symmetric])
      then have fi: "f = of_int ((m * 2 ^ (e - k)) * 2 ^ k)"
        using fm by (metis of_int_mult of_int_numeral of_int_power)
      from lo hi have "q * 2 ^ k < (m * 2 ^ (e - k)) * 2 ^ k"
        "(m * 2 ^ (e - k)) * 2 ^ k < (q + 1) * 2 ^ k"
        unfolding fi of_int_less_iff by simp_all
      then have "q < m * 2 ^ (e - k)" "m * 2 ^ (e - k) < q + 1"
        by (simp_all add: mult_less_cancel_right)
      then show False by linarith
    next
      case False
      then have "e + 1 \<le> k" by simp
      have "m * 2 ^ e \<le> \<bar>m\<bar> * 2 ^ e" by (intro mult_right_mono) simp_all
      also have "\<dots> \<le> 2 ^ 53 * 2 ^ e" using m by (intro mult_right_mono) simp_all
      also have "\<dots> = 2 ^ 52 * (2::int) ^ (e + 1)" by simp
      also have "\<dots> \<le> 2 ^ 52 * 2 ^ k"
        using \<open>e + 1 \<le> k\<close> by (intro mult_left_mono power_increasing) simp_all
      also have "\<dots> \<le> q * 2 ^ k" using q by (intro mult_right_mono) simp_all
      finally have "(of_int (m * 2 ^ e) :: rat) \<le> of_int (q * 2 ^ k)"
        by (subst of_int_le_iff)
      then show False using lo fm by simp
    qed
  qed
qed

lemma to_float64_minus: "to_float64 (- i) = - to_float64 i"
  by (simp add: to_float64_def Let_def)

lemma is_float64_minus: "is_float64 f \<Longrightarrow> is_float64 (- f)"
proof -
  assume "is_float64 f"
  then obtain m :: int and e :: nat where m: "\<bar>m\<bar> \<le> 2 ^ 53"
    and fe: "f = of_int m * 2 ^ e \<or> f = of_int m / 2 ^ e"
    unfolding is_float64_def by blast
  then have "\<bar>- m\<bar> \<le> 2 ^ 53 \<and> (- f = of_int (- m) * 2 ^ e \<or> - f = of_int (- m) / 2 ^ e)"
    by auto
  then show ?thesis unfolding is_float64_def by blast
qed

lemma to_float64_mono_nonneg:
  assumes f: "is_float64 f" and i: "0 \<le> i"
  shows "to_float64 i < f \<Longrightarrow> of_int i < f" and "f < to_float64 i \<Longrightarrow> f < of_int i"
proof -
  let ?k = "nat (bitlen \<bar>i\<bar> - 53)"
  let ?q = "\<bar>i\<bar> div 2 ^ ?k"
  note s = to_float64_shape [of i]
  have both: "(to_float64 i < f \<longrightarrow> of_int i < f) \<and> (f < to_float64 i \<longrightarrow> f < of_int i)"
  proof (cases "?k = 0 \<or> i = 0")
    case True
    then have "\<bar>i\<bar> = ?q * 2 ^ ?k" by auto
    then have "to_float64 i = of_int i" by (rule s(7))
    then show ?thesis by simp
  next
    case False
    then have k: "0 < ?k" and pos: "0 < i" using i by auto
    then have ai: "\<bar>i\<bar> = i" "sgn i = 1" by simp_all
    have q: "2 ^ 52 \<le> ?q" using s(5) k by simp
    have lo: "(of_int (?q * 2 ^ ?k) :: rat) \<le> of_int i"
      using s(1) ai by (subst of_int_le_iff) simp
    have hi: "(of_int i :: rat) < of_int ((?q + 1) * 2 ^ ?k)"
      using s(2) ai by (subst of_int_less_iff) simp
    have tf: "to_float64 i = of_int (?q * 2 ^ ?k) \<or> to_float64 i = of_int ((?q + 1) * 2 ^ ?k)"
      using s(6) ai by simp
    have tflo: "(of_int (?q * 2 ^ ?k) :: rat) \<le> to_float64 i"
      using tf by (auto simp del: of_int_mult of_int_add of_int_power)
    have tfhi: "to_float64 i \<le> (of_int ((?q + 1) * 2 ^ ?k) :: rat)"
      using tf by (auto simp del: of_int_mult of_int_add of_int_power)
    have a: "of_int i < f" if "to_float64 i < f"
    proof -
      from that tflo have "of_int (?q * 2 ^ ?k) < f" by linarith
      with no_float64_between [OF f q k] have "\<not> f < of_int ((?q + 1) * 2 ^ ?k)" by blast
      with hi show ?thesis by linarith
    qed
    have b: "f < of_int i" if "f < to_float64 i"
    proof -
      from that tfhi have "f < of_int ((?q + 1) * 2 ^ ?k)" by linarith
      with no_float64_between [OF f q k] have fl: "f \<le> of_int (?q * 2 ^ ?k)" by fastforce
      show ?thesis
      proof (rule ccontr)
        assume "\<not> f < of_int i"
        with fl lo have eq: "(of_int i :: rat) = of_int (?q * 2 ^ ?k)" by linarith
        then have "i = ?q * 2 ^ ?k" by (subst (asm) of_int_eq_iff)
        then have "to_float64 i = of_int i" using s(7) ai by simp
        with that \<open>\<not> f < of_int i\<close> show False by simp
      qed
    qed
    from a b show ?thesis by blast
  qed
  from both show "to_float64 i < f \<Longrightarrow> of_int i < f" by blast
  from both show "f < to_float64 i \<Longrightarrow> f < of_int i" by blast
qed

lemma to_float64_mono:
  assumes f: "is_float64 f"
  shows "to_float64 i < f \<Longrightarrow> of_int i < f" and "f < to_float64 i \<Longrightarrow> f < of_int i"
proof -
  show "of_int i < f" if "to_float64 i < f"
  proof (cases "0 \<le> i")
    case True
    from f True that show ?thesis by (rule to_float64_mono_nonneg(1))
  next
    case False
    then have "0 \<le> - i" by simp
    moreover from that have "- f < to_float64 (- i)" by (simp add: to_float64_minus)
    ultimately have "- f < of_int (- i)"
      using to_float64_mono_nonneg(2) [OF is_float64_minus [OF f]] by blast
    then show ?thesis by simp
  qed
  show "f < of_int i" if "f < to_float64 i"
  proof (cases "0 \<le> i")
    case True
    from f True that show ?thesis by (rule to_float64_mono_nonneg(2))
  next
    case False
    then have "0 \<le> - i" by simp
    moreover from that have "to_float64 (- i) < - f" by (simp add: to_float64_minus)
    ultimately have "of_int (- i) < - f"
      using to_float64_mono_nonneg(1) [OF is_float64_minus [OF f]] by blast
    then show ?thesis by simp
  qed
qed

lemma round_half_even_of_int: "round_half_even (of_int m) = m"
  by (simp add: round_half_even_def)

lemma floor_log2_of_int:
  assumes "0 < n"
  shows "floor_log2 (of_int n) = bitlen n - 1"
proof -
  have q: "quotient_of (of_int n) = (n, 1)"
    by (simp add: of_int_rat quotient_of_Fract)
  have b1: "bitlen 1 = 1" by (simp add: bitlen_alt_def)
  have ge: "1 \<le> bitlen n" using assms bitlen_eq_zero_iff [of n] bitlen_nonneg [of n] by linarith
  have "(2::int) ^ nat (bitlen n - 1) \<le> n" using bitlen_bounds [OF assms] by simp
  then have "(of_int ((2::int) ^ nat (bitlen n - 1)) :: rat) \<le> of_int n"
    by (subst of_int_le_iff)
  then have "pow2 (bitlen n - 1) \<le> of_int n"
    using ge by (simp add: pow2_def)
  then show ?thesis by (simp add: floor_log2_def q b1)
qed

lemma round64_of_nat_bounded:
  assumes "0 < n" "n \<le> 2 ^ 53"
  shows "round64 (of_int n) = of_int n"
proof -
  define e where "e = bitlen n - 53"
  have le: "bitlen n \<le> 54"
  proof -
    have "n < 2 ^ 54" using assms(2) by simp
    then show ?thesis by (simp add: bitlen_le_iff_power)
  qed
  have ne: "(of_int n :: rat) \<noteq> 0" "\<bar>of_int n :: rat\<bar> = of_int n" "sgn (of_int n :: rat) = 1"
    using assms(1) by simp_all
  have "floor_log2 \<bar>of_int n :: rat\<bar> - 52 = e"
    using assms(1) by (simp add: ne floor_log2_of_int e_def)
  then have r: "round64 (of_int n) = of_int (round_half_even (of_int n / pow2 e)) * pow2 e"
    using assms(1) by (simp add: round64_def ne Let_def)
  show ?thesis
  proof (cases "e \<le> 0")
    case True
    then have p: "pow2 e = 1 / 2 ^ nat (- e)"
      by (cases "e = 0") (simp_all add: pow2_def)
    have "of_int n / pow2 e = (of_int (n * 2 ^ nat (- e)) :: rat)"
      by (simp add: p)
    then have "round_half_even (of_int n / pow2 e) = n * 2 ^ nat (- e)"
      by (simp only: round_half_even_of_int)
    then show ?thesis unfolding r by (simp add: p)
  next
    case False
    with le have e1: "e = 1" unfolding e_def by linarith
    then have "bitlen n = 54" unfolding e_def by simp
    then have "2 ^ 53 \<le> n" using bitlen_bounds [OF assms(1)] by simp
    with assms(2) have n: "n = 2 ^ 53" by simp
    have "of_int n / pow2 e = (of_int (2 ^ 52) :: rat)"
      unfolding e1 n by (simp add: pow2_def)
    then have "round_half_even (of_int n / pow2 e) = 2 ^ 52"
      by (simp only: round_half_even_of_int)
    then show ?thesis unfolding r unfolding e1 n by (simp add: pow2_def)
  qed
qed

lemma round64_minus: "round64 (- x) = - round64 x"
  by (simp add: round64_def Let_def)

lemma round64_of_int:
  assumes "\<bar>n\<bar> \<le> 2 ^ 53"
  shows "round64 (of_int n) = of_int n"
proof (cases n "0::int" rule: linorder_cases)
  case equal
  then show ?thesis by (simp add: round64_def)
next
  case greater
  with assms show ?thesis by (intro round64_of_nat_bounded) simp_all
next
  case less
  with assms have "round64 (of_int (- n)) = of_int (- n)"
    by (intro round64_of_nat_bounded) simp_all
  then show ?thesis using round64_minus [of "of_int n"] by simp
qed

lemma kahan_sum_exact:
  assumes "\<bar>s\<bar> + sum_list (map abs ns) \<le> 2 ^ 53"
  shows "kahan_sum (of_int s) 0 (map of_int ns) = of_int (s + sum_list ns)"
  using assms
proof (induction ns arbitrary: s)
  case Nil
  then show ?case by simp
next
  case (Cons n ns)
  have pos: "0 \<le> sum_list (map abs ns)" by (induction ns) simp_all
  from Cons.prems pos have n: "\<bar>n\<bar> \<le> 2 ^ 53" and sn: "\<bar>s + n\<bar> \<le> 2 ^ 53"
    and rest: "\<bar>s + n\<bar> + sum_list (map abs ns) \<le> 2 ^ 53"
    by simp_all
  have y: "round64 (of_int n) = of_int n" by (rule round64_of_int [OF n])
  have t: "round64 (of_int s + of_int n) = of_int s + of_int n"
    using round64_of_int [OF sn] by simp
  have step: "kahan_sum (of_int s) 0 (of_int n # map of_int ns)
              = kahan_sum (of_int (s + n)) 0 (map of_int ns)"
    by (simp add: Let_def y t) (simp add: round64_def)
  show ?case
    using Cons.IH [OF rest] unfolding list.map step by (simp add: add.assoc)
qed

lemma float64_mean_whole:
  assumes "sum_list (map abs ns) \<le> 2 ^ 53" "int (length ns) \<le> 2 ^ 53"
  shows "float64_mean (map of_int ns) = round64 (of_int (sum_list ns) / of_nat (length ns))"
proof -
  have "kahan_sum (of_int 0) 0 (map of_int ns) = of_int (0 + sum_list ns)"
    using assms(1) by (intro kahan_sum_exact) simp
  moreover have "to_float64 (int (length ns)) = of_nat (length ns)"
    using assms(2) by (simp add: to_float64_exact)
  ultimately show ?thesis by (simp add: float64_mean_def)
qed

lemma float64_mean_examples:
  "float64_mean [20, 30] = 25" "float64_mean [10] = 10" "float64_mean [20, 11] = 31 / 2"
  "float64_mean [1, 1, 2] = 6004799503160661 / 4503599627370496"
  by code_simp+

lemma to_float64_large: "to_float64 9007199254740993 = 9007199254740992"
  by code_simp

section \<open>Elementwise operations on well-typed columns\<close>

lemma has_rows_length:
  "has_rows data n \<Longrightarrow> data name = Some s \<Longrightarrow> name \<in> named_columns \<Longrightarrow> length s = n"
  by (force simp: has_rows_def)

lemma numeric_columnD:
  "numeric_column data name \<Longrightarrow> data name = Some s \<Longrightarrow> \<forall>c \<in> set s. \<not> is_text c"
  by (simp add: numeric_column_def)

lemma collect_map_Inr:
  "(\<And>x. x \<in> set xs \<Longrightarrow> f x = Inr (g x)) \<Longrightarrow> collect (map f xs) = Inr (map g xs)"
  by (induction xs) auto

lemma filter_zip_nth:
  "length xs = length ys \<Longrightarrow>
   map snd (filter (\<lambda>p. P (fst p)) (zip xs ys)) = map ((!) ys) (filter (\<lambda>i. P (xs ! i)) [0..<length ys])"
proof (induction xs ys rule: rev_induct2)
  case (4 x xs y ys)
  then have len: "length xs = length ys" by simp
  have f: "filter (\<lambda>i. P ((xs @ [x]) ! i)) [0..<length ys] = filter (\<lambda>i. P (xs ! i)) [0..<length ys]"
    using len by (intro filter_cong) (auto simp: nth_append)
  have m: "map ((!) (ys @ [y])) (filter (\<lambda>i. P (xs ! i)) [0..<length ys])
           = map ((!) ys) (filter (\<lambda>i. P (xs ! i)) [0..<length ys])"
    by (intro map_cong) (auto simp: nth_append)
  have e: "(xs @ [x]) ! length ys = x" "(ys @ [y]) ! length ys = y"
    using len by (simp_all add: nth_append)
  show ?case using 4 len by (simp add: f m e)
qed simp_all

lemma cell_ge_value:
  assumes "\<not> is_text c"
  shows "cell_ge c AGE_THRESHOLD = Inr (case value_of c of None \<Rightarrow> False | Some a \<Rightarrow> 50 \<le> a)"
  using assms by (cases c) (simp_all add: AGE_THRESHOLD_def to_float64_exact)

lemma cell_lt_numeric:
  assumes "\<not> is_text a" "\<not> is_text b"
  shows "cell_lt a b = Inr (compares_less a b)"
  using assms by (cases a; cases b) (simp_all add: compares_less_def)

lemma compares_less_exact:
  assumes "\<not> is_text a" "\<not> is_text b" "exactly_comparable a b"
  shows "compares_less a b = less_value a b"
  using assms by (cases a; cases b) (simp_all add: compares_less_def less_value_def)

lemma compares_less_imp_less_value:
  assumes "\<not> is_text a" "\<not> is_text b" "compares_less a b"
  shows "less_value a b"
  using assms to_float64_mono [OF is_float64_value]
  by (cases a; cases b) (auto simp: compares_less_def less_value_def)

lemma compares_less_Null: "\<not> compares_less Null b" "\<not> compares_less a Null"
  by (simp add: compares_less_def, cases a) (simp_all add: compares_less_def)

lemma series_ge_numeric:
  assumes "\<forall>c \<in> set s. \<not> is_text c"
  shows "series_ge s AGE_THRESHOLD
         = Inr (map (\<lambda>c. case value_of c of None \<Rightarrow> False | Some a \<Rightarrow> 50 \<le> a) s)"
  unfolding series_ge_def using assms by (intro collect_map_Inr cell_ge_value) simp

lemma series_lt_numeric:
  assumes "\<forall>c \<in> set l. \<not> is_text c" "\<forall>c \<in> set r. \<not> is_text c"
  shows "series_lt l r = Inr (map (\<lambda>(a, b). compares_less a b) (zip l r))"
  unfolding series_lt_def
proof (rule collect_map_Inr)
  fix p assume p: "p \<in> set (zip l r)"
  obtain a b where ab: "p = (a, b)" by (cases p)
  with p have "a \<in> set l" "b \<in> set r" by (auto dest: set_zip_leftD set_zip_rightD)
  with assms have "\<not> is_text a \<and> \<not> is_text b" by blast
  then show "(case p of (a, b) \<Rightarrow> cell_lt a b) = Inr (case p of (a, b) \<Rightarrow> compares_less a b)"
    unfolding ab by (simp add: cell_lt_numeric)
qed

lemma list_as_rows: "length s = n \<Longrightarrow> map f s = map (\<lambda>i. f (s ! i)) [0..<n]"
  by (auto simp: list_eq_iff_nth_eq)

lemma zip_as_rows:
  "length l = n \<Longrightarrow> length r = n \<Longrightarrow> map f (zip l r) = map (\<lambda>i. f (l ! i, r ! i)) [0..<n]"
  by (auto simp: list_eq_iff_nth_eq)

lemma responder_mask_rows:
  assumes rows: "has_rows data n"
    and cols: "data ''age'' = Some age" "data ''cancer_type'' = Some cancer"
      "data ''final_tumor_size'' = Some final" "data ''baseline_tumor_size'' = Some baseline"
    and num: "numeric_column data ''age''" "numeric_column data ''final_tumor_size''"
      "numeric_column data ''baseline_tumor_size''"
  shows "responder_mask data =
         Inr (map (\<lambda>i. age_at_least_threshold (row data i) \<and> is_lung (row data i)
                        \<and> compares_less (final ! i) (baseline ! i)) [0..<n])"
proof -
  have len: "length age = n" "length cancer = n" "length final = n" "length baseline = n"
    using rows cols by (auto elim: has_rows_length simp: named_columns_def)
  have m1: "series_ge age AGE_THRESHOLD =
      Inr (map (\<lambda>i. age_at_least_threshold (row data i)) [0..<n])"
    using cols(1) len(1)
    by (simp add: series_ge_numeric [OF numeric_columnD [OF num(1) cols(1)]]
        list_as_rows [of age n] age_at_least_threshold_def row_def)
  have m2: "series_eq cancer TARGET_CANCER_TYPE = map (\<lambda>i. is_lung (row data i)) [0..<n]"
  proof -
    have "cell_eq c ''Lung'' = (c = Str ''Lung'')" for c by (cases c) auto
    then show ?thesis
      using cols(2) len(2)
      by (simp add: series_eq_def list_as_rows [of cancer n] is_lung_def row_def
          TARGET_CANCER_TYPE_def)
  qed
  have m3: "series_lt final baseline =
      Inr (map (\<lambda>i. compares_less (final ! i) (baseline ! i)) [0..<n])"
    using len(3,4)
    by (simp add: series_lt_numeric [OF numeric_columnD [OF num(2) cols(3)]
          numeric_columnD [OF num(3) cols(4)]] zip_as_rows [of final n baseline])
  show ?thesis
    using cols
    by (simp add: responder_mask_def getitem_def m1 m2 m3 series_and_def
        zip_as_rows [of _ n])
qed

lemma select_rows:
  assumes "length ids = n"
  shows "select (map P [0..<n]) ids = map ((!) ids) (filter P [0..<n])"
proof -
  have "filter (\<lambda>i. map P [0..<n] ! i) [0..<n] = filter P [0..<n]"
    by (intro filter_cong) auto
  with assms filter_zip_nth [of "map P [0..<n]" ids "\<lambda>b. b"] show ?thesis
    by (simp add: select_def)
qed

lemma get_responsive_patients_rows:
  assumes rows: "has_rows data n"
    and ids: "data ''patient_id'' = Some ids"
    and cols: "data ''age'' = Some age" "data ''cancer_type'' = Some cancer"
      "data ''final_tumor_size'' = Some final" "data ''baseline_tumor_size'' = Some baseline"
    and num: "numeric_column data ''age''" "numeric_column data ''final_tumor_size''"
      "numeric_column data ''baseline_tumor_size''"
  shows "get_responsive_patients data =
         Inr (map ((!) ids)
               (filter (\<lambda>i. age_at_least_threshold (row data i) \<and> is_lung (row data i)
                             \<and> compares_less (final ! i) (baseline ! i)) [0..<n]))"
proof -
  have "length ids = n"
    using rows ids by (auto elim: has_rows_length simp: named_columns_def)
  then show ?thesis
    using ids responder_mask_rows [OF rows cols num]
    by (simp add: get_responsive_patients_def filter_rows_def getitem_def select_rows)
qed

lemma tumor_shrunk_row:
  assumes "data ''final_tumor_size'' = Some final" "data ''baseline_tumor_size'' = Some baseline"
  shows "tumor_shrunk (row data i) = less_value (final ! i) (baseline ! i)"
  using assms by (simp add: tumor_shrunk_def row_def)

lemmas table_ops =
  getitem_def series_ge_def series_eq_def series_lt_def series_and_def select_def
  filter_rows_def group_rows_def groupby_def series_mean_def group_mean_def
  groups_mean_def series_get_def
  AGE_THRESHOLD_def TARGET_CANCER_TYPE_def TREATMENT_GROUP_def CONTROL_GROUP_def

lemmas spec_rows = row_def responsive_def age_at_least_threshold_def is_lung_def
  tumor_shrunk_def less_value_def

section \<open>The Responder Filter\<close>

text \<open>
  C1, as stated, fails. The row of the one-row dataset \<open>large_sizes\<close> satisfies all
  three predicates: its final tumor size \<open>2 ^ 53\<close> is below its baseline
  \<open>2 ^ 53 + 1\<close>. The program compares the \<^verbatim>\<open>float64\<close> column with the \<^verbatim>\<open>int64\<close>
  column after converting the whole number to \<^verbatim>\<open>float64\<close>, which rounds it to
  \<open>2 ^ 53\<close>, and omits the row.
\<close>

theorem large_whole_number_row_omitted:
  "get_responsive_patients large_sizes = Inr []
   \<and> responsive (row large_sizes 0)
   \<and> row large_sizes 0 ''patient_id'' = Some (Str ''A'')"
  by (simp add: get_responsive_patients_def responder_mask_def large_sizes_def table_ops
      spec_rows float64_value_of_int to_float64_exact to_float64_large)

text \<open>
  C1, amended. On a dataset that has the five columns the filter reads, with numeric
  \<open>age\<close> and tumor sizes, in which every whole-number tumor size that is compared with
  a floating-point one is exactly representable in \<^verbatim>\<open>float64\<close> (as every whole number
  up to \<open>2 ^ 53\<close> in magnitude is), \<open>get_responsive_patients\<close> returns the
  \<open>patient_id\<close> of exactly the rows that satisfy all three predicates, in row order, once
  per matching row (so a patient on two matching rows appears twice).
\<close>

theorem get_responsive_patients_exact:
  assumes "has_rows data n"
    and "data ''patient_id'' = Some ids"
    and "data ''age'' = Some age" "data ''cancer_type'' = Some cancer"
    and "data ''final_tumor_size'' = Some final" "data ''baseline_tumor_size'' = Some baseline"
    and "numeric_column data ''age''" "numeric_column data ''final_tumor_size''"
      "numeric_column data ''baseline_tumor_size''"
    and exact: "\<forall>i < n. exactly_comparable (final ! i) (baseline ! i)"
  shows "get_responsive_patients data =
         Inr (map ((!) ids) (filter (\<lambda>i. responsive (row data i)) [0..<n]))"
proof -
  have len: "length final = n" "length baseline = n"
    using assms(1,5,6) by (auto elim: has_rows_length simp: named_columns_def)
  have "compares_less (final ! i) (baseline ! i) = tumor_shrunk (row data i)" if "i < n" for i
  proof -
    from that len have "final ! i \<in> set final" "baseline ! i \<in> set baseline" by simp_all
    then have "\<not> is_text (final ! i)" "\<not> is_text (baseline ! i)"
      using numeric_columnD [OF assms(8) assms(5)] numeric_columnD [OF assms(9) assms(6)]
      by blast+
    then show ?thesis
      using exact that
      by (simp add: compares_less_exact tumor_shrunk_row [OF assms(5) assms(6)])
  qed
  then have "filter (\<lambda>i. age_at_least_threshold (row data i) \<and> is_lung (row data i)
                          \<and> compares_less (final ! i) (baseline ! i)) [0..<n]
             = filter (\<lambda>i. responsive (row data i)) [0..<n]"
    by (intro filter_cong) (auto simp: responsive_def)
  then show ?thesis
    using get_responsive_patients_rows [OF assms(1-9)] by simp
qed

theorem get_responsive_patients_exact_witness:
  "get_responsive_patients trial_sample = Inr [Str ''P1'', Str ''P1'']"
proof -
  have r: "has_rows trial_sample 4"
    by (simp add: has_rows_def named_columns_def trial_sample_def)
  have n: "numeric_column trial_sample ''age''" "numeric_column trial_sample ''final_tumor_size''"
      "numeric_column trial_sample ''baseline_tumor_size''"
    by (simp_all add: numeric_column_def trial_sample_def)
  have u: "[0..<4] = [0, 1, 2, 3::nat]" by (simp add: upt_rec)
  have c: "trial_sample ''final_tumor_size'' = Some [I64 5, I64 6, I64 5, I64 4]"
    "trial_sample ''baseline_tumor_size'' =
       Some [F64 (float64_of_int 10), F64 (float64_of_int 12), F64 (float64_of_int 10),
             F64 (float64_of_int 8)]"
    by (simp_all add: trial_sample_def)
  have e: "\<forall>i < 4. exactly_comparable ([I64 5, I64 6, I64 5, I64 4] ! i)
        ([F64 (float64_of_int 10), F64 (float64_of_int 12), F64 (float64_of_int 10),
          F64 (float64_of_int 8)] ! i)"
  proof (intro allI impI)
    fix i :: nat
    assume "i < 4"
    then consider "i = 0" | "i = 1" | "i = 2" | "i = 3" by linarith
    then show "exactly_comparable ([I64 5, I64 6, I64 5, I64 4] ! i)
        ([F64 (float64_of_int 10), F64 (float64_of_int 12), F64 (float64_of_int 10),
          F64 (float64_of_int 8)] ! i)"
      by cases (simp_all add: to_float64_exact numeral_2_eq_2 numeral_3_eq_3)
  qed
  from get_responsive_patients_exact [OF r _ _ _ c n e] show ?thesis
    by (simp add: trial_sample_def spec_rows u float64_value_of_int to_float64_exact)
qed

text \<open>
  C7. On a dataset that has the five columns the filter reads, with numeric \<open>age\<close> and
  tumor sizes, when no row satisfies all three predicates, \<open>get_responsive_patients\<close>
  returns the empty list and no error.
\<close>

theorem no_match_returns_empty:
  assumes "has_rows data n"
    and "data ''patient_id'' = Some ids"
    and "data ''age'' = Some age" "data ''cancer_type'' = Some cancer"
    and "data ''final_tumor_size'' = Some final" "data ''baseline_tumor_size'' = Some baseline"
    and "numeric_column data ''age''" "numeric_column data ''final_tumor_size''"
      "numeric_column data ''baseline_tumor_size''"
    and none: "\<forall>i < n. \<not> responsive (row data i)"
  shows "get_responsive_patients data = Inr []"
proof -
  have len: "length final = n" "length baseline = n"
    using assms(1,5,6) by (auto elim: has_rows_length simp: named_columns_def)
  have "\<not> (age_at_least_threshold (row data i) \<and> is_lung (row data i)
            \<and> compares_less (final ! i) (baseline ! i))" if "i < n" for i
  proof
    assume a: "age_at_least_threshold (row data i) \<and> is_lung (row data i)
            \<and> compares_less (final ! i) (baseline ! i)"
    from that len have "final ! i \<in> set final" "baseline ! i \<in> set baseline" by simp_all
    then have "\<not> is_text (final ! i)" "\<not> is_text (baseline ! i)"
      using numeric_columnD [OF assms(8) assms(5)] numeric_columnD [OF assms(9) assms(6)]
      by blast+
    with a have "less_value (final ! i) (baseline ! i)"
      by (intro compares_less_imp_less_value) simp_all
    with a have "responsive (row data i)"
      by (simp add: responsive_def tumor_shrunk_row [OF assms(5) assms(6)])
    with none that show False by blast
  qed
  then have "filter (\<lambda>i. age_at_least_threshold (row data i) \<and> is_lung (row data i)
                          \<and> compares_less (final ! i) (baseline ! i)) [0..<n] = []"
    by (simp add: filter_empty_conv)
  then show ?thesis
    using get_responsive_patients_rows [OF assms(1-9)] by simp
qed

theorem no_match_returns_empty_witness:
  "get_responsive_patients no_responders = Inr []"
proof -
  have r: "has_rows no_responders 2"
    by (simp add: has_rows_def named_columns_def no_responders_def)
  have n: "numeric_column no_responders ''age''"
      "numeric_column no_responders ''final_tumor_size''"
      "numeric_column no_responders ''baseline_tumor_size''"
    by (simp_all add: numeric_column_def no_responders_def)
  have none: "\<forall>i < 2. \<not> responsive (row no_responders i)"
    by (auto simp: less_Suc_eq numeral_2_eq_2 no_responders_def spec_rows)
  show ?thesis
    by (rule no_match_returns_empty [OF r _ _ _ _ _ n none])
       (simp_all add: no_responders_def)
qed

text \<open>
  C9. On such a dataset, a row whose \<open>age\<close>, \<open>cancer_type\<close>, \<open>final_tumor_size\<close> or
  \<open>baseline_tumor_size\<close> is missing is excluded from the result: the result is the
  \<open>patient_id\<close> of the rows whose entry in the mask the filter computes is true, and
  the row is not among them.
\<close>

theorem null_row_excluded:
  assumes "has_rows data n"
    and "data ''patient_id'' = Some ids"
    and "data ''age'' = Some age" "data ''cancer_type'' = Some cancer"
    and "data ''final_tumor_size'' = Some final" "data ''baseline_tumor_size'' = Some baseline"
    and "numeric_column data ''age''" "numeric_column data ''final_tumor_size''"
      "numeric_column data ''baseline_tumor_size''"
    and i: "i < n"
    and null: "age ! i = Null \<or> cancer ! i = Null \<or> final ! i = Null \<or> baseline ! i = Null"
  shows "\<exists>keep. responder_mask data = Inr keep
           \<and> get_responsive_patients data =
               Inr (map ((!) ids) (filter (\<lambda>j. keep ! j) [0..<n]))
           \<and> i \<notin> set (filter (\<lambda>j. keep ! j) [0..<n])"
proof -
  let ?P = "\<lambda>i. age_at_least_threshold (row data i) \<and> is_lung (row data i)
                 \<and> compares_less (final ! i) (baseline ! i)"
  let ?keep = "map ?P [0..<n]"
  have m: "responder_mask data = Inr ?keep"
    by (rule responder_mask_rows [OF assms(1) assms(3-9)])
  have f: "filter (\<lambda>j. ?keep ! j) [0..<n] = filter ?P [0..<n]"
    by (intro filter_cong) auto
  have "\<not> ?P i"
    using null assms(3,4) by (auto simp: spec_rows compares_less_Null)
  then have "i \<notin> set (filter (\<lambda>j. ?keep ! j) [0..<n])"
    unfolding f by simp
  moreover have "get_responsive_patients data
      = Inr (map ((!) ids) (filter (\<lambda>j. ?keep ! j) [0..<n]))"
    unfolding f by (rule get_responsive_patients_rows [OF assms(1-9)])
  ultimately show ?thesis using m by blast
qed

theorem null_row_excluded_witness:
  "\<exists>keep. responder_mask trial_sample = Inr keep
     \<and> get_responsive_patients trial_sample
         = Inr (map ((!) [Str ''P1'', Str ''P1'', Str ''P2'', Str ''P3''])
                 (filter (\<lambda>j. keep ! j) [0..<4]))
     \<and> 2 \<notin> set (filter (\<lambda>j. keep ! j) [0..<4])"
proof -
  have r: "has_rows trial_sample 4"
    by (simp add: has_rows_def named_columns_def trial_sample_def)
  have n: "numeric_column trial_sample ''age''" "numeric_column trial_sample ''final_tumor_size''"
      "numeric_column trial_sample ''baseline_tumor_size''"
    by (simp_all add: numeric_column_def trial_sample_def)
  show ?thesis
    by (rule null_row_excluded [OF r _ _ _ _ _ n, where i = 2])
       (simp add: trial_sample_def numeral_2_eq_2)+
qed

section \<open>The Survival Aggregator\<close>

lemma series_mean_numeric:
  "\<forall>c \<in> set s. \<not> is_text c \<Longrightarrow> series_mean s = Inr (known_mean s)"
  by (auto simp: series_mean_def known_mean_def)

lemma group_rows_values:
  assumes "length keys = length vals"
  shows "map snd (filter (\<lambda>p. fst p = k) (zip keys vals))
         = map ((!) vals) (filter (\<lambda>i. keys ! i = k) [0..<length keys])"
  using filter_zip_nth [OF assms, of "\<lambda>c. c = k"] assms by simp

lemma groups_mean_numeric:
  assumes "\<forall>c \<in> set vals. \<not> is_text c"
  shows "groups_mean (group_rows keys vals)
         = Inr (map (\<lambda>g. (fst g, known_mean (snd g))) (group_rows keys vals))"
  unfolding groups_mean_def
proof (rule collect_map_Inr)
  fix g assume "g \<in> set (group_rows keys vals)"
  then obtain k where g: "g = (k, map snd (filter (\<lambda>p. fst p = k) (zip keys vals)))"
    by (auto simp: group_rows_def)
  have "set (snd g) \<subseteq> set vals"
    unfolding g using set_zip_rightD by fastforce
  with assms have "\<forall>c \<in> set (snd g). \<not> is_text c" by blast
  then show "group_mean g = Inr (fst g, known_mean (snd g))"
    by (simp add: group_mean_def series_mean_numeric)
qed

lemma group_of_empty: "group_of treatment label = [] \<longleftrightarrow> Str label \<notin> set treatment"
  by (auto simp: group_of_def filter_empty_conv in_set_conv_nth)

lemma series_get_group:
  assumes "length treatment = length survival"
  shows "series_get (map (\<lambda>g. (fst g, known_mean (snd g))) (group_rows treatment survival))
           (Str label) (PyInt 0)
         = spec_group_mean treatment survival label"
proof -
  let ?mean = "\<lambda>k. known_mean (map snd (filter (\<lambda>p. fst p = k) (zip treatment survival)))"
  have "map (\<lambda>g. (fst g, known_mean (snd g))) (group_rows treatment survival)
        = map (\<lambda>k. (k, ?mean k)) (remdups (filter (\<lambda>k. k \<noteq> Null) treatment))"
    by (simp add: group_rows_def)
  then have get: "series_get (map (\<lambda>g. (fst g, known_mean (snd g))) (group_rows treatment survival))
           (Str label) (PyInt 0)
         = (if Str label \<in> set treatment then ?mean (Str label) else PyInt 0)"
    by (simp add: series_get_def map_of_map_restrict restrict_map_def)
  have vals: "?mean (Str label) = known_mean (group_values treatment survival label)"
    using group_rows_values [OF assms, of "Str label"] by (simp add: group_of_def group_values_def)
  show ?thesis
    unfolding get vals by (simp add: spec_group_mean_def group_of_empty)
qed

lemma float_values_whole:
  assumes "whole_values s ns" "\<forall>n \<in> set ns. \<bar>n\<bar> \<le> 2 ^ 53"
  shows "float_values s = map of_int ns"
  using assms
proof (induction s arbitrary: ns)
  case Nil
  then show ?case by (simp add: whole_values_def)
next
  case (Cons c s)
  from Cons.prems(1) obtain n ns' where ns: "ns = n # ns'"
    and c: "value_of c = Some (of_int n)" and s: "whole_values s ns'"
    by (cases ns) (auto simp: whole_values_def)
  from Cons.prems(2) ns have n: "\<bar>n\<bar> \<le> 2 ^ 53" and rest: "\<forall>n \<in> set ns'. \<bar>n\<bar> \<le> 2 ^ 53"
    by simp_all
  have "float_values (c # s) = of_int n # float_values s"
    using c n by (cases c) (simp_all add: to_float64_exact)
  then show ?case using Cons.IH [OF s rest] ns by simp
qed

lemma sum_abs_nonneg: "0 \<le> sum_list (map abs ns)" for ns :: "int list"
  by (induction ns) simp_all

lemma abs_le_sum_abs: "n \<in> set ns \<Longrightarrow> \<bar>n\<bar> \<le> sum_list (map abs ns)" for n :: int
proof (induction ns)
  case Nil
  then show ?case by simp
next
  case (Cons a ns)
  show ?case
  proof (cases "n = a")
    case True
    then show ?thesis using sum_abs_nonneg [of ns] by simp
  next
    case False
    with Cons have "\<bar>n\<bar> \<le> sum_list (map abs ns)" by simp
    then show ?thesis by simp
  qed
qed

lemma known_mean_whole:
  assumes "whole_values s ns" "ns \<noteq> []" "sum_list (map abs ns) \<le> 2 ^ 53"
    "int (length ns) \<le> 2 ^ 53"
  shows "known_mean s = PyFloat (round64 (of_int (sum_list ns) / of_nat (length ns)))"
proof -
  have "\<forall>n \<in> set ns. \<bar>n\<bar> \<le> 2 ^ 53"
    using abs_le_sum_abs assms(3) by (meson order_trans)
  then have "float_values s = map of_int ns"
    using assms(1) by (intro float_values_whole)
  then show ?thesis
    using assms(2-4) by (simp add: known_mean_def float64_mean_whole)
qed

text \<open>
  C2, as stated, fails. Three treated patients who survived 1, 1 and 2 months have the
  arithmetic mean \<open>4 / 3\<close>; the program returns the \<^verbatim>\<open>float64\<close> nearest to it.
\<close>

theorem thirds_mean_rounded:
  "compute_survival_statistics thirds =
     Inr \<lparr> avg_survival_treatment_group = PyFloat (6004799503160661 / 4503599627370496),
           avg_survival_control = PyInt 0 \<rparr>
   \<and> (6004799503160661 / 4503599627370496 :: rat) \<noteq> (1 + 1 + 2) / 3"
  by (simp add: compute_survival_statistics_def thirds_def table_ops to_float64_exact
      float64_mean_examples)

text \<open>
  C2, amended. On a dataset with a \<open>treatment\<close> column and a numeric \<open>survival_months\<close>
  column whose values are of ordinary magnitude, \<open>compute_survival_statistics\<close> returns,
  without error, the record of its two fields: the mean survival of the rows labelled
  \<open>Treatment_A\<close> and of the rows labelled \<open>Control\<close>, each computed in \<^verbatim>\<open>float64\<close>
  arithmetic over the known survival values of the rows of its group, and 0 when the
  group has no row. Rows with any other label enter neither mean. Where the survival
  values of a group are whole numbers, at most \<open>2 ^ 53\<close> of them, whose magnitudes sum
  to at most \<open>2 ^ 53\<close>, the mean of the group is its arithmetic mean rounded to
  \<^verbatim>\<open>float64\<close>.
\<close>

theorem compute_survival_statistics_means:
  assumes "data ''treatment'' = Some treatment"
    and "data ''survival_months'' = Some survival"
    and "length treatment = length survival"
    and "numeric_column data ''survival_months''"
    and "\<forall>c \<in> set survival. ordinary_magnitude c"
  shows "compute_survival_statistics data =
           Inr \<lparr> avg_survival_treatment_group = spec_group_mean treatment survival ''Treatment_A'',
                 avg_survival_control = spec_group_mean treatment survival ''Control'' \<rparr>
         \<and> (\<forall>label ns.
               ns \<noteq> [] \<and> whole_values (group_values treatment survival label) ns
               \<and> sum_list (map abs ns) \<le> 2 ^ 53 \<and> int (length ns) \<le> 2 ^ 53 \<longrightarrow>
               spec_group_mean treatment survival label
                 = PyFloat (round64 (of_int (sum_list ns) / of_nat (length ns))))"
proof (intro conjI allI impI)
  have "\<forall>c \<in> set survival. \<not> is_text c"
    using assms(2,4) by (simp add: numeric_column_def)
  then show "compute_survival_statistics data =
           Inr \<lparr> avg_survival_treatment_group = spec_group_mean treatment survival ''Treatment_A'',
                 avg_survival_control = spec_group_mean treatment survival ''Control'' \<rparr>"
    using assms(1,2)
    by (simp add: compute_survival_statistics_def groupby_def groups_mean_numeric
        series_get_group [OF assms(3)] TREATMENT_GROUP_def CONTROL_GROUP_def)
next
  fix label ns
  assume a: "ns \<noteq> [] \<and> whole_values (group_values treatment survival label) ns
               \<and> sum_list (map abs ns) \<le> 2 ^ 53 \<and> int (length ns) \<le> 2 ^ 53"
  then have "length (group_values treatment survival label) = length ns"
    unfolding whole_values_def by (metis length_map)
  with a have "group_of treatment label \<noteq> []"
    by (auto simp: group_values_def)
  then show "spec_group_mean treatment survival label
                 = PyFloat (round64 (of_int (sum_list ns) / of_nat (length ns)))"
    using a by (simp add: spec_group_mean_def known_mean_whole)
qed

theorem compute_survival_statistics_means_witness:
  "compute_survival_statistics trial_sample =
     Inr \<lparr> avg_survival_treatment_group = PyFloat (round64 ((20 + 11) / 2)),
           avg_survival_control = PyInt 0 \<rparr>
   \<and> round64 ((20 + 11) / 2) = 31 / 2"
proof -
  have n: "numeric_column trial_sample ''survival_months''"
    by (simp add: numeric_column_def trial_sample_def)
  have t: "trial_sample ''treatment'' = Some [Str ''Treatment_A'', Null, Str ''Treatment_A'', Str ''Other'']"
    and s: "trial_sample ''survival_months'' =
      Some [F64 (float64_of_int 20), F64 (float64_of_int 99), F64 (float64_of_int 11), Null]"
    by (simp_all add: trial_sample_def)
  have u: "[0..<4] = [0, 1, 2, 3::nat]" by (simp add: upt_rec)
  have g: "group_values [Str ''Treatment_A'', Null, Str ''Treatment_A'', Str ''Other'']
      [F64 (float64_of_int 20), F64 (float64_of_int 99), F64 (float64_of_int 11), Null]
      ''Treatment_A'' = [F64 (float64_of_int 20), F64 (float64_of_int 11)]"
    by (simp add: group_values_def group_of_def u)
  have c: "spec_group_mean [Str ''Treatment_A'', Null, Str ''Treatment_A'', Str ''Other'']
      [F64 (float64_of_int 20), F64 (float64_of_int 99), F64 (float64_of_int 11), Null]
      ''Control'' = PyInt 0"
    by (simp add: spec_group_mean_def group_of_def u)
  have w: "[20, 11 :: int] \<noteq> [] \<and> whole_values [F64 (float64_of_int 20), F64 (float64_of_int 11)] [20, 11]
      \<and> sum_list (map abs [20, 11 :: int]) \<le> 2 ^ 53 \<and> int (length [20, 11 :: int]) \<le> 2 ^ 53"
    by (simp add: whole_values_def float64_value_of_int to_float64_exact)
  have r: "round64 ((20 + 11) / 2) = 31 / 2" by code_simp
  have len: "length [Str ''Treatment_A'', Null, Str ''Treatment_A'', Str ''Other'']
      = length [F64 (float64_of_int 20), F64 (float64_of_int 99), F64 (float64_of_int 11), Null]"
    by simp
  have o: "\<forall>c \<in> set [F64 (float64_of_int 20), F64 (float64_of_int 99), F64 (float64_of_int 11),
      Null]. ordinary_magnitude c"
    by (simp add: ordinary_magnitude_def float64_value_of_int to_float64_exact)
  note means = compute_survival_statistics_means [OF t s len n o]
  have "compute_survival_statistics trial_sample =
      Inr \<lparr> avg_survival_treatment_group =
              spec_group_mean [Str ''Treatment_A'', Null, Str ''Treatment_A'', Str ''Other'']
                [F64 (float64_of_int 20), F64 (float64_of_int 99), F64 (float64_of_int 11), Null]
                ''Treatment_A'',
            avg_survival_control = PyInt 0 \<rparr>"
    using means c by simp
  moreover have "spec_group_mean [Str ''Treatment_A'', Null, Str ''Treatment_A'', Str ''Other'']
      [F64 (float64_of_int 20), F64 (float64_of_int 99), F64 (float64_of_int 11), Null]
      ''Treatment_A'' = PyFloat (round64 (of_int (sum_list [20, 11]) / of_nat (length [20, 11 :: int])))"
    using means w unfolding g [symmetric] by blast
  ultimately show ?thesis using r by simp
qed

lemma group_rows_drop_null:
  assumes "length t1 = length s1"
  shows "group_rows (t1 @ Null # t2) (s1 @ v # s2) = group_rows (t1 @ t2) (s1 @ s2)"
proof -
  have "map snd (filter (\<lambda>p. fst p = k) (zip (t1 @ Null # t2) (s1 @ v # s2)))
        = map snd (filter (\<lambda>p. fst p = k) (zip (t1 @ t2) (s1 @ s2)))"
    if "k \<noteq> Null" for k
    using assms that by auto
  then show ?thesis
    by (auto simp: group_rows_def)
qed

text \<open>
  C10. A row whose \<open>treatment\<close> is missing belongs to no group: the statistics of the
  dataset are those of the dataset without that row, so the row enters neither mean.
\<close>

theorem null_treatment_row_ignored:
  assumes "has_rows data n"
    and "i < n"
    and "data ''treatment'' = Some treatment"
    and "treatment ! i = Null"
  shows "compute_survival_statistics (drop_row i data) = compute_survival_statistics data"
proof (cases "data ''survival_months''")
  case None
  then show ?thesis
    using assms(3) by (simp add: compute_survival_statistics_def groupby_def drop_row_def)
next
  case (Some survival)
  have len: "length treatment = n" "length survival = n"
    using assms(1,3) Some by (auto elim: has_rows_length simp: named_columns_def)
  have t: "treatment = take i treatment @ Null # drop (Suc i) treatment"
    using id_take_nth_drop [of i treatment] assms(2,4) len by simp
  have s: "survival = take i survival @ survival ! i # drop (Suc i) survival"
    using id_take_nth_drop [of i survival] assms(2) len by simp
  have "group_rows (take i treatment @ drop (Suc i) treatment)
          (take i survival @ drop (Suc i) survival)
        = group_rows (take i treatment @ Null # drop (Suc i) treatment)
          (take i survival @ survival ! i # drop (Suc i) survival)"
    using len assms(2) by (simp add: group_rows_drop_null)
  also have "\<dots> = group_rows treatment survival"
    using s t by simp
  finally show ?thesis
    using assms(3) Some
    by (simp add: compute_survival_statistics_def groupby_def drop_row_def)
qed

theorem null_treatment_row_ignored_witness:
  "compute_survival_statistics (drop_row 1 trial_sample) = compute_survival_statistics trial_sample
   \<and> drop_row 1 trial_sample ''survival_months''
       = Some [F64 (float64_of_int 20), F64 (float64_of_int 11), Null]"
proof -
  have r: "has_rows trial_sample 4"
    by (simp add: has_rows_def named_columns_def trial_sample_def)
  have t: "trial_sample ''treatment'' = Some [Str ''Treatment_A'', Null, Str ''Treatment_A'', Str ''Other'']"
    by (simp add: trial_sample_def)
  have w: "compute_survival_statistics (drop_row 1 trial_sample)
           = compute_survival_statistics trial_sample"
    by (rule null_treatment_row_ignored [OF r _ t]) simp_all
  have d: "drop_row 1 trial_sample ''survival_months''
       = Some [F64 (float64_of_int 20), F64 (float64_of_int 11), Null]"
    by (simp add: drop_row_def trial_sample_def)
  from w d show ?thesis by (rule conjI)
qed

section \<open>Extra columns\<close>

text \<open>
  C8. Two datasets that agree on the seven named columns give the same list of
  responsive patients and the same survival statistics, whatever their other columns
  hold.
\<close>

theorem extra_columns_ignored:
  assumes "\<forall>name \<in> named_columns. data name = data' name"
  shows "get_responsive_patients data = get_responsive_patients data'
         \<and> compute_survival_statistics data = compute_survival_statistics data'"
proof -
  have eq: "data ''patient_id'' = data' ''patient_id''" "data ''age'' = data' ''age''"
    "data ''cancer_type'' = data' ''cancer_type''"
    "data ''baseline_tumor_size'' = data' ''baseline_tumor_size''"
    "data ''final_tumor_size'' = data' ''final_tumor_size''"
    "data ''treatment'' = data' ''treatment''"
    "data ''survival_months'' = data' ''survival_months''"
    using assms by (simp_all add: named_columns_def)
  have cols: "getitem data ''age'' = getitem data' ''age''"
    "getitem data ''cancer_type'' = getitem data' ''cancer_type''"
    "getitem data ''final_tumor_size'' = getitem data' ''final_tumor_size''"
    "getitem data ''baseline_tumor_size'' = getitem data' ''baseline_tumor_size''"
    by (simp_all add: getitem_def eq)
  have ids: "getitem (filter_rows data keep) ''patient_id''
             = getitem (filter_rows data' keep) ''patient_id''" for keep
    by (simp add: getitem_def filter_rows_def eq)
  have groups: "groupby data ''treatment'' ''survival_months''
                = groupby data' ''treatment'' ''survival_months''"
    unfolding groupby_def eq ..
  have "responder_mask data = responder_mask data'"
    unfolding responder_mask_def cols ..
  then have "get_responsive_patients data = get_responsive_patients data'"
    unfolding get_responsive_patients_def Let_def ids by simp
  moreover have "compute_survival_statistics data = compute_survival_statistics data'"
    unfolding compute_survival_statistics_def groups ..
  ultimately show ?thesis by simp
qed

theorem extra_columns_ignored_witness:
  "(get_responsive_patients trial_sample = get_responsive_patients trial_sample_wide
    \<and> compute_survival_statistics trial_sample = compute_survival_statistics trial_sample_wide)
   \<and> trial_sample ''site'' \<noteq> trial_sample_wide ''site''
   \<and> trial_sample ''visits'' \<noteq> trial_sample_wide ''visits''"
proof -
  have "\<forall>name \<in> named_columns. trial_sample name = trial_sample_wide name"
    by (simp add: named_columns_def trial_sample_wide_def)
  then have "get_responsive_patients trial_sample = get_responsive_patients trial_sample_wide
    \<and> compute_survival_statistics trial_sample = compute_survival_statistics trial_sample_wide"
    by (rule extra_columns_ignored)
  moreover have "trial_sample ''site'' \<noteq> trial_sample_wide ''site''
      \<and> trial_sample ''visits'' \<noteq> trial_sample_wide ''visits''"
    by (simp add: trial_sample_wide_def trial_sample_def)
  ultimately show ?thesis by (rule conjI)
qed

section \<open>The end-to-end scenario\<close>

text \<open>
  C3. On the three-row dataset of the scenario, \<open>get_responsive_patients\<close> returns
  exactly P1, and \<open>compute_survival_statistics\<close> returns a treatment group mean of 25 and
  a control mean of 10.
\<close>

theorem scenario_results:
  "get_responsive_patients scenario = Inr [Str ''P1'']
   \<and> compute_survival_statistics scenario =
       Inr \<lparr> avg_survival_treatment_group = PyFloat 25, avg_survival_control = PyFloat 10 \<rparr>"
  by (simp add: get_responsive_patients_def responder_mask_def
      compute_survival_statistics_def scenario_def table_ops to_float64_exact
      float64_mean_examples)

section \<open>The orchestrator\<close>

lemma scenario_responsive: "get_responsive_patients scenario = Inr [Str ''P1'']"
  by (simp add: get_responsive_patients_def responder_mask_def scenario_def table_ops)

lemma scenario_statistics:
  "compute_survival_statistics scenario =
     Inr \<lparr> avg_survival_treatment_group = PyFloat 25, avg_survival_control = PyFloat 10 \<rparr>"
  by (simp add: compute_survival_statistics_def scenario_def table_ops to_float64_exact
      float64_mean_examples)

lemma sample_load:
  "load_clinical_data sample_files sample_reader ''clinical_trial_patients.csv'' = Inr scenario"
  "load_clinical_data sample_files sample_reader ''no_age.csv'' = Inr no_age_table"
  by (simp_all add: load_clinical_data_def sample_files_def sample_reader_def
      scenario_csv_def no_age_csv_def)

lemma no_age_fails: "get_responsive_patients no_age_table = Inl (KeyError ''age'')"
  by (simp add: get_responsive_patients_def responder_mask_def getitem_def no_age_table_def)

text \<open>
  C4, as stated, fails: the file without an \<open>age\<close> column loads, and
  \<open>analyze_clinical_trial\<close> then prints nothing and returns no list, because the
  Responder Filter fails on the loaded dataset.
\<close>

theorem load_success_not_enough:
  "load_clinical_data sample_files sample_reader ''no_age.csv'' = Inr no_age_table
   \<and> analyze_clinical_trial sample_files sample_reader ''no_age.csv''
       = ([], Inl (KeyError ''age''))"
  by (simp add: analyze_clinical_trial_def sample_load no_age_fails)

text \<open>
  C4, amended. For every file path on which the load, the Responder Filter and the
  Survival Aggregator all succeed, \<open>analyze_clinical_trial\<close> prints exactly three lines,
  in order: the Treatment_A group mean, the Control group mean and the number of
  responsive patients; and it returns the list the Responder Filter produces on the
  loaded dataset.
\<close>

theorem analyze_prints_three_lines:
  assumes "load_clinical_data fs read_csv file_path = Inr data"
    and "get_responsive_patients data = Inr ids"
    and "compute_survival_statistics data = Inr stats"
  shows "analyze_clinical_trial fs read_csv file_path =
         ([(''Avg survival (Treatment A):'', avg_survival_treatment_group stats),
           (''Avg survival (Control):'', avg_survival_control stats),
           (''Responsive patients:'', PyInt (int (length ids)))],
          Inr ids)"
  using assms by (simp add: analyze_clinical_trial_def)

theorem analyze_prints_three_lines_witness:
  "analyze_clinical_trial sample_files sample_reader ''clinical_trial_patients.csv'' =
     ([(''Avg survival (Treatment A):'', PyFloat 25),
       (''Avg survival (Control):'', PyFloat 10),
       (''Responsive patients:'', PyInt 1)],
      Inr [Str ''P1''])"
  using analyze_prints_three_lines [OF sample_load(1) scenario_responsive scenario_statistics]
  by simp

text \<open>
  C5. For every input, either the load, the filter and the aggregation all succeed and
  three lines are printed, or one of them fails, its exception ends the run and no line
  is printed.
\<close>

theorem analyze_all_or_nothing:
  "(\<exists>data ids stats.
       load_clinical_data fs read_csv file_path = Inr data
       \<and> get_responsive_patients data = Inr ids
       \<and> compute_survival_statistics data = Inr stats
       \<and> length (fst (analyze_clinical_trial fs read_csv file_path)) = 3
       \<and> snd (analyze_clinical_trial fs read_csv file_path) = Inr ids)
   \<or> (\<exists>e. analyze_clinical_trial fs read_csv file_path = ([], Inl e)
          \<and> (load_clinical_data fs read_csv file_path = Inl e
              \<or> (\<exists>data. load_clinical_data fs read_csv file_path = Inr data
                     \<and> (get_responsive_patients data = Inl e
                         \<or> compute_survival_statistics data = Inl e))))"
proof (cases "load_clinical_data fs read_csv file_path")
  case (Inl e)
  then show ?thesis by (simp add: analyze_clinical_trial_def)
next
  case load: (Inr data)
  show ?thesis
  proof (cases "get_responsive_patients data")
    case (Inl e)
    with load show ?thesis by (simp add: analyze_clinical_trial_def)
  next
    case ids: (Inr ids)
    show ?thesis
    proof (cases "compute_survival_statistics data")
      case (Inl e)
      with load ids show ?thesis by (simp add: analyze_clinical_trial_def)
    next
      case (Inr stats)
      with load ids show ?thesis by (simp add: analyze_clinical_trial_def)
    qed
  qed
qed


lemma missing_column_KeyError:
  assumes num: "numeric_column data ''age''" "numeric_column data ''final_tumor_size''"
      "numeric_column data ''baseline_tumor_size''"
    and missing: "\<exists>name \<in> filter_columns. data name = None"
  shows "\<exists>name \<in> filter_columns. data name = None
           \<and> get_responsive_patients data = Inl (KeyError name)"
proof (cases "data ''age''")
  case None
  then have "get_responsive_patients data = Inl (KeyError ''age'')"
    by (simp add: get_responsive_patients_def responder_mask_def getitem_def)
  with None show ?thesis by (auto simp: filter_columns_def)
next
  case age: (Some age)
  note m1 = series_ge_numeric [OF numeric_columnD [OF num(1) age]]
  show ?thesis
  proof (cases "data ''cancer_type''")
    case None
    with age m1 have "get_responsive_patients data = Inl (KeyError ''cancer_type'')"
      by (simp add: get_responsive_patients_def responder_mask_def getitem_def)
    with None show ?thesis by (auto simp: filter_columns_def)
  next
    case cancer: (Some cancer)
    show ?thesis
    proof (cases "data ''final_tumor_size''")
      case None
      with age m1 cancer have "get_responsive_patients data = Inl (KeyError ''final_tumor_size'')"
        by (simp add: get_responsive_patients_def responder_mask_def getitem_def)
      with None show ?thesis by (auto simp: filter_columns_def)
    next
      case final: (Some final)
      show ?thesis
      proof (cases "data ''baseline_tumor_size''")
        case None
        with age m1 cancer final
        have "get_responsive_patients data = Inl (KeyError ''baseline_tumor_size'')"
          by (simp add: get_responsive_patients_def responder_mask_def getitem_def)
        with None show ?thesis by (auto simp: filter_columns_def)
      next
        case baseline: (Some baseline)
        note m3 = series_lt_numeric [OF numeric_columnD [OF num(2) final]
            numeric_columnD [OF num(3) baseline]]
        from missing age cancer final baseline have ids: "data ''patient_id'' = None"
          by (auto simp: filter_columns_def)
        with age m1 cancer final baseline m3
        have "get_responsive_patients data = Inl (KeyError ''patient_id'')"
          by (simp add: get_responsive_patients_def responder_mask_def getitem_def
              filter_rows_def)
        with ids show ?thesis by (auto simp: filter_columns_def)
      qed
    qed
  qed
qed

text \<open>
  C6. Loading a path that is not in the file system fails with FileNotFoundError, which
  leaves \<open>analyze_clinical_trial\<close> as it is, with nothing printed. On a dataset with
  numeric \<open>age\<close> and tumor sizes that lacks one of the columns the Responder Filter reads,
  the filter fails with the KeyError of a lacking column; a failure of the filter on the
  loaded dataset leaves \<open>analyze_clinical_trial\<close> as it is, with nothing printed.
\<close>

theorem missing_inputs_fail:
  "(fs missing_path = None \<longrightarrow>
      load_clinical_data fs read_csv missing_path = Inl FileNotFoundError
      \<and> analyze_clinical_trial fs read_csv missing_path = ([], Inl FileNotFoundError))
   \<and> (numeric_column data ''age'' \<and> numeric_column data ''final_tumor_size''
        \<and> numeric_column data ''baseline_tumor_size''
        \<and> (\<exists>name \<in> filter_columns. data name = None) \<longrightarrow>
      (\<exists>name \<in> filter_columns. data name = None
          \<and> get_responsive_patients data = Inl (KeyError name)))
   \<and> (load_clinical_data fs read_csv file_path = Inr data
        \<and> get_responsive_patients data = Inl e \<longrightarrow>
      analyze_clinical_trial fs read_csv file_path = ([], Inl e))"
proof (intro conjI impI)
  assume "fs missing_path = None"
  then show load: "load_clinical_data fs read_csv missing_path = Inl FileNotFoundError"
    by (simp add: load_clinical_data_def)
  then show "analyze_clinical_trial fs read_csv missing_path = ([], Inl FileNotFoundError)"
    by (simp add: analyze_clinical_trial_def)
next
  assume "numeric_column data ''age'' \<and> numeric_column data ''final_tumor_size''
        \<and> numeric_column data ''baseline_tumor_size''
        \<and> (\<exists>name \<in> filter_columns. data name = None)"
  then show "\<exists>name \<in> filter_columns. data name = None
          \<and> get_responsive_patients data = Inl (KeyError name)"
    by (intro missing_column_KeyError) simp_all
next
  assume "load_clinical_data fs read_csv file_path = Inr data
        \<and> get_responsive_patients data = Inl e"
  then show "analyze_clinical_trial fs read_csv file_path = ([], Inl e)"
    by (simp add: analyze_clinical_trial_def)
qed

theorem missing_inputs_fail_witness:
  "(load_clinical_data sample_files sample_reader ''missing.csv'' = Inl FileNotFoundError
    \<and> analyze_clinical_trial sample_files sample_reader ''missing.csv''
        = ([], Inl FileNotFoundError))
   \<and> (\<exists>name \<in> filter_columns. no_age_table name = None
          \<and> get_responsive_patients no_age_table = Inl (KeyError name))
   \<and> analyze_clinical_trial sample_files sample_reader ''no_age.csv''
       = ([], Inl (KeyError ''age''))"
proof -
  have absent: "sample_files ''missing.csv'' = None"
    by (simp add: sample_files_def)
  have typed: "numeric_column no_age_table ''age''"
    "numeric_column no_age_table ''final_tumor_size''"
    "numeric_column no_age_table ''baseline_tumor_size''"
    by (simp_all add: numeric_column_def no_age_table_def)
  have lacking: "\<exists>name \<in> filter_columns. no_age_table name = None"
    by (simp add: filter_columns_def no_age_table_def)
  show ?thesis
    using missing_inputs_fail [where fs = sample_files and read_csv = sample_reader
        and missing_path = "''missing.csv''" and data = no_age_table
        and file_path = "''no_age.csv''" and e = "KeyError ''age''"]
      absent typed lacking sample_load(2) no_age_fails
    by blast
qed

end
